theory Spec2Isabelle
  imports Complex_Main "HOL-Library.AList"
begin

section \<open>Data of the validator\<close>

text \<open>
  The validator of \<^verbatim>\<open>src/neurons/validator.py\<close> keeps its state in the fields of the
  class \<^verbatim>\<open>Validator\<close>. Each component below is modelled with the fields it reads and
  writes. A uid is a slot index of the metagraph (a natural number), hotkeys, coldkeys and
  ip addresses are strings, block heights and difficulties are Python integers.
\<close>

type_synonym uid = nat

text \<open>The fields of \<^verbatim>\<open>bt.AxonInfo\<close> that the validator reads.\<close>

record axon =
  hotkey :: string
  ip :: string
  version :: int

section \<open>Difficulty controller: \<^verbatim>\<open>Validator.calc_difficulty\<close>\<close>

text \<open>
  One row of \<^verbatim>\<open>self.stats\<close>, as \<^verbatim>\<open>select_challenge_stats\<close> returns it. A field is
  \<open>None\<close> when the key is absent or holds a value that is no number; the numbers are
  finite, so they are rationals.
\<close>

record stat =
  last_20_difficulty_avg :: "rat option"
  last_20_challenge_failed :: "rat option"
  challenge_successes :: "rat option"

text \<open>
  Modelled from the spec: \<^verbatim>\<open>compute.utils.math.force_to_float_or_default\<close> is imported
  by the validator and is not among the source files. It gives the number when there is
  one and the default otherwise (\<^verbatim>\<open>default=D_min\<close> for the average, zero when the caller
  names no default).
\<close>

definition force_to_float_or_default :: "rat option \<Rightarrow> rat \<Rightarrow> rat" where
  "force_to_float_or_default val dflt = (case val of None \<Rightarrow> dflt | Some x \<Rightarrow> x)"

text \<open>
  \<^verbatim>\<open>current_difficulty\<close> of the source: the ceiling of the average difficulty of the last
  20 challenges, the minimum difficulty when there is no average.
\<close>

definition current_difficulty :: "int \<Rightarrow> stat \<Rightarrow> int" where
  "current_difficulty pow_min_difficulty st =
     \<lceil>force_to_float_or_default (last_20_difficulty_avg st) (of_int pow_min_difficulty)\<rceil>"

text \<open>
  \<^verbatim>\<open>calc_difficulty\<close>: the constant \<^verbatim>\<open>pow_min_difficulty\<close> of the package \<^verbatim>\<open>compute\<close> is a
  parameter. A uid without a row raises \<^verbatim>\<open>KeyError\<close>, which the function catches, and the
  minimum difficulty is returned.
\<close>

definition calc_difficulty :: "int \<Rightarrow> (uid \<rightharpoonup> stat) \<Rightarrow> uid \<Rightarrow> int" where
  "calc_difficulty pow_min_difficulty stats u =
     (case stats u of
        None \<Rightarrow> pow_min_difficulty
      | Some st \<Rightarrow>
          (let cur = current_difficulty pow_min_difficulty st;
               last_20_failed = force_to_float_or_default (last_20_challenge_failed st) 0;
               successes = force_to_float_or_default (challenge_successes st) 0
           in if successes \<ge> 20
              then (if last_20_failed = 0 then cur + 1
                    else if last_20_failed \<ge> 2 then cur - 1
                    else cur)
              else pow_min_difficulty))"

section \<open>Membership filter\<close>

subsection \<open>Blacklist stage: \<^verbatim>\<open>Validator.is_blacklisted\<close>\<close>

text \<open>
  The two keys of \<^verbatim>\<open>bt.NeuronInfoLite\<close> that the blacklist reads (\<^verbatim>\<open>neuron.coldkey\<close>,
  \<^verbatim>\<open>neuron.hotkey\<close>; the prefix keeps them apart from the hotkey of an axon).
\<close>

record neuron =
  n_coldkey :: string
  n_hotkey :: string

text \<open>The four sets that \<^verbatim>\<open>__init__\<close> builds from the configuration.\<close>

record blacklists =
  blacklist_hotkeys :: "string set"
  blacklist_coldkeys :: "string set"
  exploiters_hotkeys :: "string set"
  exploiters_coldkeys :: "string set"

text \<open>
  \<^verbatim>\<open>is_blacklisted\<close> returns its verdict and mutates the sets: the model returns the
  verdict with the new sets. The four tests are in the order of the source; the two
  \<^verbatim>\<open>add\<close> calls are on the sets the source names.
\<close>

definition is_blacklisted :: "blacklists \<Rightarrow> neuron \<Rightarrow> bool \<times> blacklists" where
  "is_blacklisted v n =
     (let coldkey = n_coldkey n; hotkey = n_hotkey n
      in if coldkey \<in> blacklist_coldkeys v then (True, v)
         else if hotkey \<in> blacklist_hotkeys v
           then (True, v\<lparr>blacklist_hotkeys := insert coldkey (blacklist_hotkeys v)\<rparr>)
         else if coldkey \<in> exploiters_coldkeys v then (True, v)
         else if hotkey \<in> exploiters_hotkeys v
           then (True, v\<lparr>exploiters_hotkeys := insert coldkey (exploiters_hotkeys v)\<rparr>)
         else (False, v))"

subsection \<open>Deduplication stage: \<^verbatim>\<open>Validator.filter_axons\<close>\<close>

text \<open>
  A Python dict keeps its keys in insertion order and an assignment to a key that is
  present replaces the value in place: an association list with \<^const>\<open>AList.update\<close>.
  The loop carries the set \<^verbatim>\<open>valid_ip_addresses\<close> and the dict \<^verbatim>\<open>dict_filtered_axons\<close>.
\<close>

fun filter_axons_loop ::
  "string set \<Rightarrow> (uid \<times> axon) list \<Rightarrow> (uid \<times> axon) list \<Rightarrow> (uid \<times> axon) list" where
  "filter_axons_loop valid_ip_addresses dict_filtered_axons [] = dict_filtered_axons"
| "filter_axons_loop valid_ip_addresses dict_filtered_axons ((u, a) # rest) =
     (if ip a \<notin> valid_ip_addresses
      then filter_axons_loop (insert (ip a) valid_ip_addresses)
             (AList.update u a dict_filtered_axons) rest
      else filter_axons_loop valid_ip_addresses dict_filtered_axons rest)"

definition filter_axons :: "(uid \<times> axon) list \<Rightarrow> (uid \<times> axon) list" where
  "filter_axons queryable_tuple_uids_axons =
     filter_axons_loop {} [] queryable_tuple_uids_axons"

text \<open>
  The deduplication as the spec words it: keep the first worker observed per address and
  drop every later worker with the same address.
\<close>

fun first_per_address :: "(uid \<times> axon) list \<Rightarrow> (uid \<times> axon) list" where
  "first_per_address [] = []"
| "first_per_address (p # ps) =
     p # first_per_address [q \<leftarrow> ps. ip (snd q) \<noteq> ip (snd p)]"

subsection \<open>Version stage: \<^verbatim>\<open>Validator.filter_axon_version\<close>\<close>

text \<open>
  Modelled from the spec: \<^verbatim>\<open>compute.utils.math.percent\<close> is imported by the validator and
  is not among the source files. It is the share of \<open>val\<close> in the total \<open>tot\<close> as a percentage,
  and zero for an empty total.
\<close>

definition percent :: "int \<Rightarrow> int \<Rightarrow> rat" where
  "percent val tot = (if tot = 0 then 0 else of_int val / of_int tot * 100)"

text \<open>
  \<^verbatim>\<open>filter_axon_version\<close>. The minimal miner version fetched from the remote
  (\<open>None\<close> when there is none), the field \<^verbatim>\<open>total_current_miners\<close> and the constant
  \<^verbatim>\<open>validator_whitelist_miners_threshold\<close> are parameters. The loop copies the entries
  that pass the test into a new dict, in order.
\<close>

definition filter_axon_version ::
  "int option \<Rightarrow> int \<Rightarrow> rat \<Rightarrow> (uid \<times> axon) list \<Rightarrow> (uid \<times> axon) list" where
  "filter_axon_version latest_version total_current_miners
       validator_whitelist_miners_threshold dict_filtered_axons =
     (if percent (int (length dict_filtered_axons)) total_current_miners
           \<le> validator_whitelist_miners_threshold
      then dict_filtered_axons
      else [(u, a) \<leftarrow> dict_filtered_axons.
              (case latest_version of None \<Rightarrow> False
               | Some v \<Rightarrow> v \<noteq> 0 \<and> version a \<ge> v)])"

section \<open>Registry lifecycle: \<^verbatim>\<open>Validator.sync_miners_info\<close>\<close>

text \<open>
  The stats store is reached through \<^verbatim>\<open>purge_miner_entries\<close> and \<^verbatim>\<open>update_miners\<close> only;
  the model records the calls, in order. \<^verbatim>\<open>self.miners\<close> is the dict from uid to hotkey.
\<close>

datatype db_call = Purge uid string | Update uid string

record registry =
  miners :: "(uid \<times> string) list"
  db :: "db_call list"

text \<open>The property \<^verbatim>\<open>miners_items_to_set\<close>: \<open>None\<close> for an empty dict.\<close>

definition miners_items_to_set :: "(uid \<times> string) list \<Rightarrow> (uid \<times> string) set option" where
  "miners_items_to_set ms = (if ms \<noteq> [] then Some (set ms) else None)"

text \<open>
  One iteration of the loop. The condition is the truth value of the property and the
  membership test; \<^verbatim>\<open>self.miners[uid]\<close> raises \<^verbatim>\<open>KeyError\<close> for an unknown uid, which
  skips the purge.
\<close>

fun sync_miner :: "registry \<Rightarrow> uid \<times> axon \<Rightarrow> registry" where
  "sync_miner r (u, a) =
     (if (case miners_items_to_set (miners r) of None \<Rightarrow> False
          | Some s \<Rightarrow> s \<noteq> {} \<and> (u, hotkey a) \<notin> s)
      then r\<lparr>db := (case map_of (miners r) u of None \<Rightarrow> db r
                     | Some old \<Rightarrow> db r @ [Purge u old]) @ [Update u (hotkey a)],
              miners := AList.update u (hotkey a) (miners r)\<rparr>
      else r)"

definition sync_miners_info :: "registry \<Rightarrow> (uid \<times> axon) list \<Rightarrow> registry" where
  "sync_miners_info r queryable_tuple_uids_axons =
     (if queryable_tuple_uids_axons \<noteq> [] then foldl sync_miner r queryable_tuple_uids_axons
      else r)"

text \<open>The calls to the stats store that concern one uid, in order.\<close>

fun call_uid :: "db_call \<Rightarrow> uid" where
  "call_uid (Purge u h) = u"
| "call_uid (Update u h) = u"

definition calls_for :: "uid \<Rightarrow> db_call list \<Rightarrow> db_call list" where
  "calls_for u cs = [c \<leftarrow> cs. call_uid c = u]"

section \<open>Challenge dispatcher: the batches of \<^verbatim>\<open>Validator.start\<close>\<close>

text \<open>
  The exceptions that the validator meets. \<^verbatim>\<open>NotImplementedError\<close> and \<^verbatim>\<open>RecursionError\<close>
  are the built-in subclasses of \<^verbatim>\<open>RuntimeError\<close>; an exception of any other class has
  its name and the handled class it derives from, if any.
\<close>

datatype exn_base = Derives_RuntimeError | Derives_KeyboardInterrupt | Derives_neither

datatype exn =
  RuntimeError | NotImplementedError | RecursionError | KeyboardInterrupt | ValueError
  | OtherException string exn_base

text \<open>What \<^verbatim>\<open>except RuntimeError\<close> and \<^verbatim>\<open>except KeyboardInterrupt\<close> match: the class and its subclasses.\<close>

fun isinstance_RuntimeError :: "exn \<Rightarrow> bool" where
  "isinstance_RuntimeError RuntimeError = True"
| "isinstance_RuntimeError NotImplementedError = True"
| "isinstance_RuntimeError RecursionError = True"
| "isinstance_RuntimeError (OtherException name Derives_RuntimeError) = True"
| "isinstance_RuntimeError e = False"

fun isinstance_KeyboardInterrupt :: "exn \<Rightarrow> bool" where
  "isinstance_KeyboardInterrupt KeyboardInterrupt = True"
| "isinstance_KeyboardInterrupt (OtherException name Derives_KeyboardInterrupt) = True"
| "isinstance_KeyboardInterrupt e = False"

text \<open>A piece of code either runs to its end or raises; in both cases it leaves a state.\<close>

datatype 's outcome = Returns 's | Raises exn 's

text \<open>
  What the orchestrator does with a thread. A thread object is the uid it queries and
  whether it was started before (\<^verbatim>\<open>start\<close> on a started thread raises \<^verbatim>\<open>RuntimeError\<close>).
\<close>

datatype thread_event = Start uid | Join uid

type_synonym thread = "uid \<times> bool"

text \<open>The slices \<^verbatim>\<open>self.uids[i : i + B]\<close> for \<^verbatim>\<open>i in range(0, len(self.uids), B)\<close>, \<open>B > 0\<close>.\<close>

fun batches :: "nat \<Rightarrow> 'a list \<Rightarrow> 'a list list" where
  "batches B xs = (if B = 0 \<or> xs = [] then [] else take B xs # batches B (drop B xs))"

text \<open>
  The inner loop over one slice: a uid that is not queryable raises \<^verbatim>\<open>KeyError\<close> and is
  skipped, every other uid gets a new thread appended to \<^verbatim>\<open>self.threads\<close>.
\<close>

definition batch_threads :: "(uid \<times> axon) list \<Rightarrow> thread list \<Rightarrow> uid list \<Rightarrow> thread list" where
  "batch_threads queryable_uids threads batch =
     foldl (\<lambda>ths u. if u \<in> fst ` set queryable_uids then ths @ [(u, False)] else ths)
       threads batch"

text \<open>
  The outer loop: each slice starts from \<^verbatim>\<open>self.threads = []\<close>. The loop body neither
  starts nor joins a thread.
\<close>

definition build_threads ::
  "(uid \<times> axon) list \<Rightarrow> thread list \<Rightarrow> uid list list \<Rightarrow> thread list" where
  "build_threads queryable_uids threads bs =
     foldl (\<lambda>ths batch. batch_threads queryable_uids [] batch) threads bs"

fun start_threads :: "thread list \<Rightarrow> thread_event list \<Rightarrow> exn + thread_event list" where
  "start_threads [] evs = Inr evs"
| "start_threads ((u, started) # ts) evs =
     (if started then Inl RuntimeError else start_threads ts (evs @ [Start u]))"

text \<open>
  The dispatch of one challenge round, from the \<^verbatim>\<open>for i in range\<close> loop to the last
  \<^verbatim>\<open>join\<close>: the batch size, \<^verbatim>\<open>self.uids\<close>, \<^verbatim>\<open>self._queryable_uids\<close> and the threads left in
  \<^verbatim>\<open>self.threads\<close> by the round before. A step of zero makes \<^verbatim>\<open>range\<close> raise
  \<^verbatim>\<open>ValueError\<close>, a negative step gives an empty range. The two loops over
  \<^verbatim>\<open>self.threads\<close> stand after the \<^verbatim>\<open>for i\<close> loop, at its indentation.
\<close>

definition dispatch ::
  "int \<Rightarrow> uid list \<Rightarrow> (uid \<times> axon) list \<Rightarrow> thread list \<Rightarrow> exn + thread_event list" where
  "dispatch validator_challenge_batch_size uids queryable_uids threads0 =
     (if validator_challenge_batch_size = 0 then Inl ValueError
      else
        (let bs = (if validator_challenge_batch_size < 0 then []
                   else batches (nat validator_challenge_batch_size) uids);
             threads = build_threads queryable_uids threads0 bs
         in case start_threads threads [] of
              Inl e \<Rightarrow> Inl e
            | Inr evs \<Rightarrow> Inr (evs @ map (\<lambda>t. Join (fst t)) threads)))"

text \<open>
  The dispatch as the spec words it: every batch is started and joined before the next
  one begins.
\<close>

definition joined_batches :: "nat \<Rightarrow> uid list \<Rightarrow> thread_event list" where
  "joined_batches B queryable = concat (map (\<lambda>b. map Start b @ map Join b) (batches B queryable))"

section \<open>Weight scheduler: \<^verbatim>\<open>Validator.set_weights\<close> and the weight check of \<^verbatim>\<open>Validator.start\<close>\<close>

subsection \<open>The weight vector\<close>




subsection \<open>The commit and the rate limit\<close>







section \<open>Round orchestrator: the loop of \<^verbatim>\<open>Validator.start\<close>\<close>

text \<open>
  The body of the \<^verbatim>\<open>try\<close> block is a parameter. The loop has two handlers, for
  \<^verbatim>\<open>RuntimeError\<close> (logged, the loop goes on) and for \<^verbatim>\<open>KeyboardInterrupt\<close> (the database
  is closed and the process exits); an exception that neither handler matches leaves the
  loop and the function.
\<close>

datatype 's run = Looping 's "exn list" | Exited 's "exn list" | Propagated exn 's "exn list"

text \<open>
  \<^verbatim>\<open>while True\<close> never ends by itself: the first argument is the number of iterations
  observed, \<^const>\<open>Looping\<close> says that the loop is still running after them. The list
  holds the errors logged by the first handler.
\<close>

fun start :: "nat \<Rightarrow> ('s \<Rightarrow> 's outcome) \<Rightarrow> 's \<Rightarrow> exn list \<Rightarrow> 's run" where
  "start 0 body s logged = Looping s logged"
| "start (Suc n) body s logged =
     (case body s of
        Returns s' \<Rightarrow> start n body s' logged
      | Raises e s' \<Rightarrow>
          (if isinstance_RuntimeError e then start n body s' (logged @ [e])
           else if isinstance_KeyboardInterrupt e then Exited s' logged
           else Propagated e s' logged))"

section \<open>Theorems\<close>

subsection \<open>Difficulty controller\<close>

text \<open>
  Claim C3, as the spec states it, asks the returned difficulty never to be below the
  minimum \<open>D_min\<close>. A worker whose last 20 challenges were all at \<open>D_min = 2\<close>, with 20
  lifetime successes and 2 failures among the last 20, gets difficulty 1.
\<close>

theorem calc_difficulty_below_min_counterexample:
  "calc_difficulty 2
     [5 \<mapsto> \<lparr>last_20_difficulty_avg = Some 2, last_20_challenge_failed = Some 2,
            challenge_successes = Some 20\<rparr>] 5 = 1
   \<and> \<not> 2 \<le> calc_difficulty 2
     [5 \<mapsto> \<lparr>last_20_difficulty_avg = Some 2, last_20_challenge_failed = Some 2,
            challenge_successes = Some 20\<rparr>] 5"
  by (simp add: calc_difficulty_def current_difficulty_def force_to_float_or_default_def)

text \<open>
  Claim C3, amended: for a worker with at least 20 lifetime successes the next difficulty
  is \<open>current + 1\<close> when there is no failure among the last 20, \<open>current - 1\<close> when there
  are at least 2, and \<open>current\<close> otherwise; it differs from the current difficulty by at
  most 1, and it is at least the minimum difficulty whenever the current difficulty is
  above the minimum. No floor is applied to the decrement.
\<close>

theorem calc_difficulty_step:
  assumes "stats u = Some st"
    and "challenge_successes st = Some s" and "20 \<le> s"
    and "f = force_to_float_or_default (last_20_challenge_failed st) 0"
    and "cur = current_difficulty D_min st"
  shows "calc_difficulty D_min stats u =
           (if f = 0 then cur + 1 else if 2 \<le> f then cur - 1 else cur)
         \<and> \<bar>calc_difficulty D_min stats u - cur\<bar> \<le> 1
         \<and> (D_min < cur \<longrightarrow> D_min \<le> calc_difficulty D_min stats u)"
  using assms
  by (simp add: calc_difficulty_def force_to_float_or_default_def Let_def)

theorem calc_difficulty_step_witness:
  "calc_difficulty 2
     [5 \<mapsto> \<lparr>last_20_difficulty_avg = Some (9 / 2), last_20_challenge_failed = Some 3,
            challenge_successes = Some 20\<rparr>] 5 = 4"
  using calc_difficulty_step [of
     "[5 \<mapsto> \<lparr>last_20_difficulty_avg = Some (9 / 2), last_20_challenge_failed = Some 3,
            challenge_successes = Some 20\<rparr>]" 5
     "\<lparr>last_20_difficulty_avg = Some (9 / 2), last_20_challenge_failed = Some 3,
            challenge_successes = Some 20\<rparr>" 20 3 5 2]
  by (simp add: current_difficulty_def force_to_float_or_default_def ceiling_unique)

subsection \<open>Blacklist stage\<close>

text \<open>
  Claim C5 says that a blacklisted hotkey puts the worker's coldkey into the set of
  blacklisted coldkeys, so that another worker of the same coldkey is filtered out
  afterwards. With the hotkey \<open>H1\<close> blacklisted, the worker \<open>(C1, H1)\<close> is reported as
  blacklisted, its coldkey goes into \<^verbatim>\<open>blacklist_hotkeys\<close>, the set of coldkeys stays
  empty, and the next worker \<open>(C1, H2)\<close> of the same coldkey is not blacklisted.
\<close>

theorem is_blacklisted_coldkey_not_recorded:
  "is_blacklisted
     \<lparr>blacklist_hotkeys = {''H1''}, blacklist_coldkeys = {},
      exploiters_hotkeys = {}, exploiters_coldkeys = {}\<rparr>
     \<lparr>n_coldkey = ''C1'', n_hotkey = ''H1''\<rparr>
   = (True, \<lparr>blacklist_hotkeys = {''C1'', ''H1''}, blacklist_coldkeys = {},
             exploiters_hotkeys = {}, exploiters_coldkeys = {}\<rparr>)
   \<and> fst (is_blacklisted
     \<lparr>blacklist_hotkeys = {''C1'', ''H1''}, blacklist_coldkeys = {},
      exploiters_hotkeys = {}, exploiters_coldkeys = {}\<rparr>
     \<lparr>n_coldkey = ''C1'', n_hotkey = ''H2''\<rparr>) = False"
  by (simp add: is_blacklisted_def)

subsection \<open>Deduplication stage\<close>

lemma update_fresh: "u \<notin> fst ` set d \<Longrightarrow> AList.update u a d = d @ [(u, a)]"
  by (induction d) auto

lemma filter_axons_loop_first:
  "distinct (map fst (d @ q)) \<Longrightarrow>
     filter_axons_loop S d q = d @ first_per_address [p \<leftarrow> q. ip (snd p) \<notin> S]"
proof (induction q arbitrary: S d)
  case Nil
  then show ?case by simp
next
  case (Cons p q)
  obtain u a where p: "p = (u, a)" by (cases p)
  from Cons.prems p have fresh: "u \<notin> fst ` set d"
    and d1: "distinct (map fst ((d @ [(u, a)]) @ q))" and d2: "distinct (map fst (d @ q))"
    by auto
  show ?case
  proof (cases "ip a \<in> S")
    case True
    then show ?thesis using Cons.IH [OF d2, of S] p by simp
  next
    case False
    have eq: "[x \<leftarrow> q. ip (snd x) \<notin> insert (ip a) S]
                = [x \<leftarrow> [y \<leftarrow> q. ip (snd y) \<notin> S]. ip (snd x) \<noteq> ip a]"
      by (induction q) auto
    have "filter_axons_loop S d (p # q)
            = filter_axons_loop (insert (ip a) S) (d @ [(u, a)]) q"
      using False p update_fresh [OF fresh, of a] by simp
    also have "\<dots> = (d @ [(u, a)])
            @ first_per_address [x \<leftarrow> q. ip (snd x) \<notin> insert (ip a) S]"
      by (rule Cons.IH [OF d1])
    also have "\<dots> = d @ first_per_address ((u, a) # [y \<leftarrow> q. ip (snd y) \<notin> S])"
      by (simp only: eq first_per_address.simps snd_conv append_assoc append_Cons append_Nil)
    also have "\<dots> = d @ first_per_address [y \<leftarrow> p # q. ip (snd y) \<notin> S]"
      using False p by simp
    finally show ?thesis .
  qed
qed

lemma find_filter_keep:
  "(\<And>y. P y \<Longrightarrow> Q y) \<Longrightarrow> find P (filter Q xs) = find P xs"
  by (induction xs) auto

lemma find_filter_none:
  "(\<And>y. P y \<Longrightarrow> \<not> Q y) \<Longrightarrow> find P (filter Q xs) = None"
  by (auto simp: find_None_iff)

lemma first_per_address_find:
  "x \<in> set (first_per_address q) \<longleftrightarrow> find (\<lambda>y. ip (snd y) = ip (snd x)) q = Some x"
proof (induction q rule: first_per_address.induct)
  case 1
  then show ?case by simp
next
  case (2 p ps)
  show ?case
  proof (cases "ip (snd p) = ip (snd x)")
    case True
    have "find (\<lambda>y. ip (snd y) = ip (snd x)) [q \<leftarrow> ps. ip (snd q) \<noteq> ip (snd p)] = None"
      using True by (intro find_filter_none) simp
    with 2 True show ?thesis by auto
  next
    case False
    have "find (\<lambda>y. ip (snd y) = ip (snd x)) [q \<leftarrow> ps. ip (snd q) \<noteq> ip (snd p)]
            = find (\<lambda>y. ip (snd y) = ip (snd x)) ps"
      using False by (intro find_filter_keep) simp
    with 2 False show ?thesis by auto
  qed
qed

lemma first_per_address_subset: "set (first_per_address q) \<subseteq> set q"
  by (induction q rule: first_per_address.induct) auto

lemma first_per_address_distinct_ip: "distinct (map (\<lambda>p. ip (snd p)) (first_per_address q))"
proof (induction q rule: first_per_address.induct)
  case 1
  then show ?case by simp
next
  case (2 p ps)
  have "ip (snd p) \<notin> (\<lambda>p. ip (snd p)) ` set (first_per_address [q \<leftarrow> ps. ip (snd q) \<noteq> ip (snd p)])"
    using first_per_address_subset [of "[q \<leftarrow> ps. ip (snd q) \<noteq> ip (snd p)]"] by auto
  with 2 show ?case by simp
qed

text \<open>
  Claim C8: for candidates with pairwise different uids (the uids of a round, in their
  order), \<^verbatim>\<open>filter_axons\<close> is the deduplication of the spec; a worker is kept exactly when
  it is the first of the list with its address; and no two kept workers with different
  uids share an address.
\<close>

theorem filter_axons_first_per_address:
  assumes "distinct (map fst q)"
  shows "filter_axons q = first_per_address q
       \<and> (\<forall>x. x \<in> set (filter_axons q)
              \<longleftrightarrow> find (\<lambda>y. ip (snd y) = ip (snd x)) q = Some x)
       \<and> (\<forall>x \<in> set (filter_axons q). \<forall>y \<in> set (filter_axons q).
              fst x \<noteq> fst y \<longrightarrow> ip (snd x) \<noteq> ip (snd y))"
proof -
  have eq: "filter_axons q = first_per_address q"
    using filter_axons_loop_first [of "[]" q "{}"] assms by (simp add: filter_axons_def)
  have "\<forall>x \<in> set (first_per_address q). \<forall>y \<in> set (first_per_address q).
          x \<noteq> y \<longrightarrow> ip (snd x) \<noteq> ip (snd y)"
    using first_per_address_distinct_ip [of q] by (auto simp: distinct_map inj_on_def)
  then show ?thesis
    using eq first_per_address_find by auto
qed

theorem filter_axons_first_per_address_witness:
  "filter_axons
     [(1, \<lparr>hotkey = ''h1'', ip = ''10.0.0.1'', version = 1\<rparr>),
      (2, \<lparr>hotkey = ''h2'', ip = ''10.0.0.1'', version = 1\<rparr>),
      (3, \<lparr>hotkey = ''h3'', ip = ''10.0.0.2'', version = 1\<rparr>)]
   = [(1, \<lparr>hotkey = ''h1'', ip = ''10.0.0.1'', version = 1\<rparr>),
      (3, \<lparr>hotkey = ''h3'', ip = ''10.0.0.2'', version = 1\<rparr>)]"
  using filter_axons_first_per_address [of
     "[(1, \<lparr>hotkey = ''h1'', ip = ''10.0.0.1'', version = 1\<rparr>),
       (2, \<lparr>hotkey = ''h2'', ip = ''10.0.0.1'', version = 1\<rparr>),
       (3, \<lparr>hotkey = ''h3'', ip = ''10.0.0.2'', version = 1\<rparr>)]"]
  by simp

subsection \<open>Version stage\<close>

text \<open>
  The test of the source compares the size of the set with \<^verbatim>\<open>total_current_miners\<close> and
  reads no version. The class gives that field the value 0 and no method assigns it, so
  with a threshold that is not negative the stage returns every set unchanged.
\<close>

lemma filter_axon_version_total_zero:
  "0 \<le> threshold \<Longrightarrow> filter_axon_version latest_version 0 threshold d = d"
  by (simp add: filter_axon_version_def percent_def)

text \<open>
  For another value of the field the test still reads no version: three workers that are
  all outdated are all dropped when they are the 3 current miners and the threshold is 50.
\<close>

lemma filter_axon_version_drops_all:
  "filter_axon_version (Some 200) 3 50
     [(1, \<lparr>hotkey = ''h1'', ip = ''10.0.0.1'', version = 100\<rparr>),
      (2, \<lparr>hotkey = ''h2'', ip = ''10.0.0.2'', version = 100\<rparr>),
      (3, \<lparr>hotkey = ''h3'', ip = ''10.0.0.3'', version = 100\<rparr>)] = []"
  by (simp add: filter_axon_version_def percent_def)

text \<open>
  Claim C4 says that the stage is skipped exactly when the outdated workers are more than
  the configured share of the set, and that otherwise the outdated workers are dropped.
  With the minimal version 200, the threshold 50 (so that 50 percent may be outdated,
  whether the threshold counts the outdated or the current workers) and
  \<^verbatim>\<open>total_current_miners = 0\<close>, a set of three workers with one outdated worker comes back
  unchanged: the outdated worker is kept.
\<close>

theorem filter_axon_version_keeps_outdated:
  "filter_axon_version (Some 200) 0 50
     [(1, \<lparr>hotkey = ''h1'', ip = ''10.0.0.1'', version = 100\<rparr>),
      (2, \<lparr>hotkey = ''h2'', ip = ''10.0.0.2'', version = 200\<rparr>),
      (3, \<lparr>hotkey = ''h3'', ip = ''10.0.0.3'', version = 200\<rparr>)]
   = [(1, \<lparr>hotkey = ''h1'', ip = ''10.0.0.1'', version = 100\<rparr>),
      (2, \<lparr>hotkey = ''h2'', ip = ''10.0.0.2'', version = 200\<rparr>),
      (3, \<lparr>hotkey = ''h3'', ip = ''10.0.0.3'', version = 200\<rparr>)]"
  by (simp add: filter_axon_version_def percent_def)

subsection \<open>Registry lifecycle\<close>

lemma sync_miner_other:
  assumes "u' \<noteq> u"
  shows "map_of (miners (sync_miner r (u', a'))) u = map_of (miners r) u"
    and "calls_for u (db (sync_miner r (u', a'))) = calls_for u (db r)"
  using assms by (auto simp: calls_for_def AList.update_conv' split: option.splits)

lemma sync_miner_distinct:
  "distinct (map fst (miners r)) \<Longrightarrow> distinct (map fst (miners (sync_miner r p)))"
  by (cases p) (auto simp: AList.distinct_update)

lemma foldl_sync_miner_distinct:
  "distinct (map fst (miners r)) \<Longrightarrow> distinct (map fst (miners (foldl sync_miner r q)))"
  by (induction q arbitrary: r) (simp_all add: sync_miner_distinct del: sync_miner.simps)

lemma foldl_sync_miner_other:
  assumes "u \<notin> fst ` set q"
  shows "map_of (miners (foldl sync_miner r q)) u = map_of (miners r) u
       \<and> calls_for u (db (foldl sync_miner r q)) = calls_for u (db r)"
  using assms
proof (induction q arbitrary: r)
  case Nil
  then show ?case by simp
next
  case (Cons p q)
  obtain u' a' where p: "p = (u', a')" by (cases p)
  with Cons.prems have ne: "u' \<noteq> u" and rest: "u \<notin> fst ` set q" by auto
  show ?case
    using Cons.IH [OF rest, of "sync_miner r p"] sync_miner_other [OF ne, of r a'] p
    by simp
qed

lemma sync_miner_changed:
  assumes "distinct (map fst (miners r))" and "map_of (miners r) u = Some old"
    and "hotkey a \<noteq> old"
  shows "sync_miner r (u, a) =
           r\<lparr>db := db r @ [Purge u old, Update u (hotkey a)],
             miners := AList.update u (hotkey a) (miners r)\<rparr>"
proof -
  have "miners r \<noteq> []" using assms(2) by auto
  moreover have "(u, hotkey a) \<notin> set (miners r)"
  proof
    assume "(u, hotkey a) \<in> set (miners r)"
    from map_of_is_SomeI [OF assms(1) this] assms(2,3) show False by simp
  qed
  ultimately show ?thesis
    using assms(2) by (simp add: miners_items_to_set_def)
qed

lemma foldl_sync_miner_empty:
  "miners r = [] \<Longrightarrow> foldl sync_miner r q = r"
  by (induction q) (auto simp: miners_items_to_set_def)

text \<open>
  Claim C6: when the known miners hold \<open>(u, old)\<close> and the queryable list (pairwise
  different uids) holds \<open>u\<close> with another hotkey, the calls to the stats store for \<open>u\<close>
  are exactly one purge of \<open>(u, old)\<close> followed by one update to the new hotkey, after
  whatever was recorded before, and the miners map holds the new hotkey for \<open>u\<close>.
\<close>

theorem sync_miners_info_reregistration:
  assumes "distinct (map fst q)" and "(u, a) \<in> set q"
    and "distinct (map fst ms)" and "map_of ms u = Some old" and "hotkey a \<noteq> old"
  shows "calls_for u (db (sync_miners_info \<lparr>miners = ms, db = d\<rparr> q))
           = calls_for u d @ [Purge u old, Update u (hotkey a)]
       \<and> map_of (miners (sync_miners_info \<lparr>miners = ms, db = d\<rparr> q)) u = Some (hotkey a)"
proof -
  obtain ys zs where q: "q = ys @ (u, a) # zs"
    using assms(2) by (auto dest: split_list)
  with assms(1) have ys: "u \<notin> fst ` set ys" and zs: "u \<notin> fst ` set zs" by auto
  define r0 where "r0 = \<lparr>miners = ms, db = d\<rparr>"
  define r1 where "r1 = foldl sync_miner r0 ys"
  define r2 where "r2 = sync_miner r1 (u, a)"
  have r1_map: "map_of (miners r1) u = Some old" and r1_calls: "calls_for u (db r1) = calls_for u d"
    using foldl_sync_miner_other [OF ys, of r0] assms(4) by (simp_all add: r1_def r0_def)
  have r1_dist: "distinct (map fst (miners r1))"
    unfolding r1_def using assms(3) by (intro foldl_sync_miner_distinct) (simp add: r0_def)
  have r2: "r2 = r1\<lparr>db := db r1 @ [Purge u old, Update u (hotkey a)],
                    miners := AList.update u (hotkey a) (miners r1)\<rparr>"
    unfolding r2_def using r1_dist r1_map assms(5) by (rule sync_miner_changed)
  have r2_map: "map_of (miners r2) u = Some (hotkey a)"
    by (simp add: r2 AList.update_conv')
  have r2_calls: "calls_for u (db r2) = calls_for u d @ [Purge u old, Update u (hotkey a)]"
    using r1_calls by (simp add: r2 calls_for_def)
  have fin: "sync_miners_info r0 q = foldl sync_miner r2 zs"
    by (simp add: sync_miners_info_def q r1_def r2_def del: sync_miner.simps)
  show ?thesis
    using foldl_sync_miner_other [OF zs, of r2] r2_map r2_calls fin
    by (simp add: r0_def)
qed

theorem sync_miners_info_reregistration_witness:
  "calls_for 5 (db (sync_miners_info \<lparr>miners = [(5, ''A'')], db = []\<rparr>
       [(5, \<lparr>hotkey = ''B'', ip = ''10.0.0.1'', version = 1\<rparr>)]))
     = [Purge 5 ''A'', Update 5 ''B'']
   \<and> map_of (miners (sync_miners_info \<lparr>miners = [(5, ''A'')], db = []\<rparr>
       [(5, \<lparr>hotkey = ''B'', ip = ''10.0.0.1'', version = 1\<rparr>)])) 5 = Some ''B''"
  using sync_miners_info_reregistration [of
     "[(5, \<lparr>hotkey = ''B'', ip = ''10.0.0.1'', version = 1\<rparr>)]" 5
     "\<lparr>hotkey = ''B'', ip = ''10.0.0.1'', version = 1\<rparr>" "[(5, ''A'')]" "''A''" "[]"]
  by (simp add: calls_for_def)

text \<open>
  Claim C10: with an empty miners map the reconciliation does nothing, whatever the
  queryable list is: no call to the stats store, and the map stays empty.
\<close>

theorem sync_miners_info_empty_miners:
  assumes "miners r = []"
  shows "sync_miners_info r q = r"
  using assms by (simp add: sync_miners_info_def foldl_sync_miner_empty)

theorem sync_miners_info_empty_miners_witness:
  "sync_miners_info \<lparr>miners = [], db = []\<rparr>
     [(5, \<lparr>hotkey = ''B'', ip = ''10.0.0.1'', version = 1\<rparr>)] = \<lparr>miners = [], db = []\<rparr>"
  using sync_miners_info_empty_miners [of "\<lparr>miners = [], db = []\<rparr>"
     "[(5, \<lparr>hotkey = ''B'', ip = ''10.0.0.1'', version = 1\<rparr>)]"]
  by simp

subsection \<open>Challenge dispatcher\<close>

text \<open>
  Claim C1 says that with batch size 2 and 5 queryable workers the dispatcher runs the
  batches \<open>[0, 1]\<close>, \<open>[2, 3]\<close>, \<open>[4]\<close>, each started and joined before the next. The source
  starts and joins after the loop over the batches, when \<^verbatim>\<open>self.threads\<close> holds the last
  batch only: the thread of uid 4 is the only one that runs.
\<close>

theorem dispatch_runs_last_batch_only:
  "dispatch 2 [0, 1, 2, 3, 4]
     [(0, \<lparr>hotkey = ''h0'', ip = ''10.0.0.1'', version = 1\<rparr>),
      (1, \<lparr>hotkey = ''h1'', ip = ''10.0.0.2'', version = 1\<rparr>),
      (2, \<lparr>hotkey = ''h2'', ip = ''10.0.0.3'', version = 1\<rparr>),
      (3, \<lparr>hotkey = ''h3'', ip = ''10.0.0.4'', version = 1\<rparr>),
      (4, \<lparr>hotkey = ''h4'', ip = ''10.0.0.5'', version = 1\<rparr>)] []
   = Inr [Start 4, Join 4]
   \<and> joined_batches 2 [0, 1, 2, 3, 4]
   = [Start 0, Start 1, Join 0, Join 1, Start 2, Start 3, Join 2, Join 3, Start 4, Join 4]"
  by (simp add: dispatch_def build_threads_def batch_threads_def joined_batches_def)

subsection \<open>Weight vector\<close>







subsection \<open>Weight scheduler\<close>




subsection \<open>Round orchestrator\<close>

text \<open>
  Claim C9 says that every exception of the loop body other than the interrupt is caught
  and logged and that the loop goes on, as the comment above the first handler does. A
  \<^verbatim>\<open>ValueError\<close> raised by the body in the first iteration is matched by neither handler:
  it leaves the loop, and nothing is logged. An error of the class \<^verbatim>\<open>RuntimeError\<close> or of
  a subclass is caught and logged, and the loop goes on.
\<close>

theorem start_value_error_propagates:
  "start (Suc (Suc 0)) (\<lambda>s. Raises ValueError s) () [] = Propagated ValueError () []
   \<and> start (Suc (Suc 0)) (\<lambda>s. Raises NotImplementedError s) () []
     = Looping () [NotImplementedError, NotImplementedError]"
  by simp

end
